theory Spec2Isabelle
  imports Main
begin

section \<open>Python values\<close>

text \<open>
  The program keeps its connection tables in Python dictionaries and stores them as JSON.
  A dictionary key of this program is either an \<open>int\<close> (the value of \<open>hash(...)\<close> computed
  in \<open>get_current_connections\<close>) or a \<open>str\<close> (every key that \<open>json.load\<close> returns, and the
  field names of a connection's details). The two never compare equal in Python.
\<close>

datatype key = KInt int | KStr string

text \<open>
  Values are the Python objects that \<open>json.load\<close> can return and that the program builds.
  Numbers with a fractional part are not modelled. A dictionary is an association list in
  insertion order, as Python keeps it.
\<close>

datatype pyval =
    PNone
  | PBool bool
  | PInt int
  | PStr string
  | PList "pyval list"
  | PDict "(key \<times> pyval) list"

type_synonym dict = "(key \<times> pyval) list"

text \<open>\<open>d[k] = v\<close>: an existing key keeps its position and gets the new value, a new key
  goes to the end.\<close>

fun dict_set :: "dict \<Rightarrow> key \<Rightarrow> pyval \<Rightarrow> dict" where
  "dict_set [] k v = [(k, v)]"
| "dict_set ((k', v') # d) k v = (if k' = k then (k, v) # d else (k', v') # dict_set d k v)"

text \<open>\<open>k in d\<close> and \<open>d.get(k)\<close> for a dictionary \<open>d\<close>.\<close>

definition dict_keys :: "dict \<Rightarrow> key list" where
  "dict_keys d = map fst d"

definition dict_has :: "dict \<Rightarrow> key \<Rightarrow> bool" where
  "dict_has d k = (k \<in> set (dict_keys d))"

definition dict_get :: "dict \<Rightarrow> key \<Rightarrow> pyval option" where
  "dict_get d k = map_of d k"

text \<open>\<open>d.update(e)\<close> for dictionaries \<open>d\<close> and \<open>e\<close>: every item of \<open>e\<close> is stored into \<open>d\<close>,
  in the order of \<open>e\<close>.\<close>

fun dict_update :: "dict \<Rightarrow> dict \<Rightarrow> dict" where
  "dict_update d [] = d"
| "dict_update d ((k, v) # e) = dict_update (dict_set d k v) e"

subsection \<open>Rendering integers\<close>

text \<open>\<open>str(n)\<close> for an integer, used by the f-strings and by \<open>json.dump\<close> for integer keys.\<close>

definition digit_char :: "nat \<Rightarrow> char" where
  "digit_char d = ''0123456789'' ! d"

function str_nat :: "nat \<Rightarrow> string" where
  "str_nat n = (if n < 10 then [digit_char n] else str_nat (n div 10) @ [digit_char (n mod 10)])"
  by pat_completeness auto
termination
  by (relation "measure (\<lambda>n. n)") auto

declare str_nat.simps [simp del]

definition str_int :: "int \<Rightarrow> string" where
  "str_int i = (if i < 0 then CHR ''-'' # str_nat (nat (- i)) else str_nat (nat i))"

subsection \<open>JSON documents\<close>

text \<open>
  \<open>json.dump\<close> writes every dictionary key as a JSON string: a \<open>str\<close> key as it is, an
  \<open>int\<close> key as its decimal rendering. \<open>json.load\<close> returns every key as a \<open>str\<close>.
\<close>

definition key_str :: "key \<Rightarrow> string" where
  "key_str k = (case k of KInt i \<Rightarrow> str_int i | KStr s \<Rightarrow> s)"

text \<open>
  \<open>jsonify v\<close> is the Python value that \<open>json.load\<close> returns from the text that
  \<open>json.dump(v, f, indent=4)\<close> wrote. The items of an object are read back in the order
  of the text, a repeated key keeping its first position and its last value.
\<close>

fun jsonify :: "pyval \<Rightarrow> pyval"
  and jsonify_list :: "pyval list \<Rightarrow> pyval list"
  and jsonify_items :: "dict \<Rightarrow> dict \<Rightarrow> dict" where
  "jsonify PNone = PNone"
| "jsonify (PBool b) = PBool b"
| "jsonify (PInt i) = PInt i"
| "jsonify (PStr s) = PStr s"
| "jsonify (PList vs) = PList (jsonify_list vs)"
| "jsonify (PDict d) = PDict (jsonify_items d [])"
| "jsonify_list [] = []"
| "jsonify_list (v # vs) = jsonify v # jsonify_list vs"
| "jsonify_items [] acc = acc"
| "jsonify_items ((k, v) # d) acc = jsonify_items d (dict_set acc (KStr (key_str k)) (jsonify v))"

section \<open>The operating system and the Python runtime\<close>

text \<open>
  \<open>psutil.net_connections(kind='inet')\<close> returns a list of records. An address is a pair
  of an IP string and a port, or the empty tuple when the socket has none; the empty tuple
  is the only falsy address, so an address is an \<open>option\<close>.
\<close>

record addr =
  ip :: string
  port :: int

datatype address_family = AF_INET | AF_INET6

datatype socket_kind = SOCK_STREAM | SOCK_DGRAM

record sconn =
  family :: address_family
  type :: socket_kind
  laddr :: "addr option"
  raddr :: "addr option"
  status :: string
  pid :: "int option"

text \<open>What \<open>psutil.Process(pid).name()\<close> does: it returns the name, or raises
  \<open>NoSuchProcess\<close> or \<open>AccessDenied\<close>, or raises something else.\<close>

datatype lookup = Name string | NoSuchProcess | AccessDenied | Other_Failure

text \<open>The operating system at one polling tick. \<open>net_connections\<close> is \<open>None\<close> when the
  enumeration itself raises.\<close>

record os_state =
  net_connections :: "sconn list option"
  pid_exists :: "int \<Rightarrow> bool"
  process_name :: "int \<Rightarrow> lookup"

text \<open>
  The built-ins whose results the interpreter fixes: \<open>hash\<close> on strings (one function for
  the lifetime of an interpreter process) and \<open>str\<close> on the two socket enumerations.
\<close>

record runtime =
  hash :: "string \<Rightarrow> int"
  str_family :: "address_family \<Rightarrow> string"
  str_type :: "socket_kind \<Rightarrow> string"

section \<open>Log, files and exceptions\<close>

datatype level = DEBUG | INFO | WARNING | ERROR

text \<open>One constructor for each message the program logs; the text of a caught exception
  that a message quotes is left out.\<close>

datatype message =
    Debug_mode_enabled
  | Could_not_get_process_name int
  | Error_processing_connection
  | File_not_found string
  | Error_decoding_JSON string
  | Error_loading_known_connections string
  | Error_saving_known_connections string
  | New_connection_detected pyval
  | New_connections_written string
  | Error_writing_new_connections string
  | No_output_file_specified
  | No_new_connections
  | Exiting_program
  | Unexpected_error
  | Program_terminated

text \<open>A file holds text. \<open>json.load\<close> sees one of three things: nothing at all, text that
  is not JSON, or text that it decodes to a value.\<close>

datatype file_content = Empty_File | Invalid_Json | Json_Doc pyval

text \<open>
  The world outside the interpreter. A path names a file, and two paths can name the same
  one (\<open>f\<close> and \<open>./f\<close>, a symbolic link, a hard link): \<open>file_of\<close> gives the file that a path
  names, under one spelling chosen for it, and \<open>files\<close> holds the content of each file that
  exists. The files are regular files, which keep what is written to them; devices and
  pipes are not modelled. Then come the paths on which \<open>open\<close> fails for reading and for
  writing, and the log written so far.
\<close>

record world =
  file_of :: "string \<Rightarrow> string"
  files :: "string \<Rightarrow> file_content option"
  unreadable :: "string \<Rightarrow> bool"
  unwritable :: "string \<Rightarrow> bool"
  logged :: "(level \<times> message) list"

definition log_msg :: "level \<Rightarrow> message \<Rightarrow> world \<Rightarrow> world" where
  "log_msg lvl m w = w\<lparr>logged := logged w @ [(lvl, m)]\<rparr>"

text \<open>The exceptions that leave a function of the program.\<close>

datatype exn = TypeError | AttributeError | ValueError | Enumeration_Failed

section \<open>get\_current\_connections\<close>

definition format_addr :: "addr \<Rightarrow> string" where
  "format_addr a = ip a @ '':'' @ str_int (port a)"

definition str_pid :: "int option \<Rightarrow> string" where
  "str_pid p = (case p of None \<Rightarrow> ''None'' | Some i \<Rightarrow> str_int i)"

text \<open>\<open>hash(f"{conn.pid}-{local_address}-{remote_address}-{conn.status}")\<close>\<close>

definition connection_hash :: "runtime \<Rightarrow> int option \<Rightarrow> string \<Rightarrow> string \<Rightarrow> string \<Rightarrow> int" where
  "connection_hash rt p local_address remote_address st =
     hash rt (str_pid p @ ''-'' @ local_address @ ''-'' @ remote_address @ ''-'' @ st)"

text \<open>The dictionary stored under the hash.\<close>

definition connection_details :: "runtime \<Rightarrow> sconn \<Rightarrow> string \<Rightarrow> string \<Rightarrow> string \<Rightarrow> pyval" where
  "connection_details rt conn local_address remote_address pname =
     PDict [(KStr ''pid'', (case pid conn of None \<Rightarrow> PNone | Some p \<Rightarrow> PInt p)),
            (KStr ''local_address'', PStr local_address),
            (KStr ''remote_address'', PStr remote_address),
            (KStr ''status'', PStr (status conn)),
            (KStr ''process_name'', PStr pname),
            (KStr ''family'', PStr (str_family rt (family conn))),
            (KStr ''type'', PStr (str_type rt (type conn)))]"

text \<open>
  The inner \<open>if\<close>/\<open>try\<close>: the name of the owning process, with the warning it may log.
  \<open>None\<close> is an exception that the inner handler does not catch.
\<close>

definition resolve_process_name :: "os_state \<Rightarrow> int option \<Rightarrow> world \<Rightarrow> string option \<times> world" where
  "resolve_process_name os p w =
     (case p of
        None \<Rightarrow> (Some ''System'', w)
      | Some i \<Rightarrow>
          if pid_exists os i then
            (case process_name os i of
               Name n \<Rightarrow> (Some n, w)
             | NoSuchProcess \<Rightarrow> (Some ''Unknown'', log_msg WARNING (Could_not_get_process_name i) w)
             | AccessDenied \<Rightarrow> (Some ''Unknown'', log_msg WARNING (Could_not_get_process_name i) w)
             | Other_Failure \<Rightarrow> (None, w))
          else (Some ''System'', w))"

text \<open>The body of the \<open>for\<close> loop, on the dictionary built so far.\<close>

definition collect_connection :: "runtime \<Rightarrow> os_state \<Rightarrow> sconn \<Rightarrow> dict \<times> world \<Rightarrow> dict \<times> world" where
  "collect_connection rt os conn cw =
     (case cw of (connections, w) \<Rightarrow>
       (case (laddr conn, raddr conn) of
          (Some la, Some ra) \<Rightarrow>
            (let local_address = format_addr la;
                 remote_address = format_addr ra
             in case resolve_process_name os (pid conn) w of
                  (Some pname, w') \<Rightarrow>
                    (dict_set connections
                       (KInt (connection_hash rt (pid conn) local_address remote_address (status conn)))
                       (connection_details rt conn local_address remote_address pname), w')
                | (None, w') \<Rightarrow> (connections, log_msg ERROR Error_processing_connection w'))
        | _ \<Rightarrow> (connections, w)))"

definition collect_connections :: "runtime \<Rightarrow> os_state \<Rightarrow> sconn list \<Rightarrow> world \<Rightarrow> dict \<times> world" where
  "collect_connections rt os conns w = fold (collect_connection rt os) conns ([], w)"

definition get_current_connections :: "runtime \<Rightarrow> os_state \<Rightarrow> world \<Rightarrow> (exn + dict) \<times> world" where
  "get_current_connections rt os w =
     (case net_connections os of
        None \<Rightarrow> (Inl Enumeration_Failed, w)
      | Some conns \<Rightarrow>
          (case collect_connections rt os conns w of (connections, w') \<Rightarrow> (Inr connections, w')))"

text \<open>What the body of the loop writes to the log for one record: the log it leaves when
  it starts on an empty one.\<close>

definition record_log :: "runtime \<Rightarrow> os_state \<Rightarrow> sconn \<Rightarrow> (level \<times> message) list" where
  "record_log rt os conn =
     logged (snd (collect_connection rt os conn
       ([], \<lparr>file_of = (\<lambda>p. p), files = Map.empty,
             unreadable = (\<lambda>p. False), unwritable = (\<lambda>p. False), logged = []\<rparr>)))"

section \<open>load\_known\_connections and save\_known\_connections\<close>

text \<open>
  \<open>os.path.exists\<close> holds when the file that the path names is in the domain of \<open>files\<close>.
  With the path known to exist, \<open>open\<close> can still fail (the \<open>unreadable\<close> paths), which the
  last handler catches.
\<close>

definition load_known_connections :: "string \<Rightarrow> world \<Rightarrow> pyval \<times> world" where
  "load_known_connections file_path w =
     (case files w (file_of w file_path) of
        Some content \<Rightarrow>
          if unreadable w file_path
          then (PDict [], log_msg ERROR (Error_loading_known_connections file_path) w)
          else (case content of
                  Json_Doc v \<Rightarrow> (v, w)
                | Empty_File \<Rightarrow> (PDict [], log_msg ERROR (Error_decoding_JSON file_path) w)
                | Invalid_Json \<Rightarrow> (PDict [], log_msg ERROR (Error_decoding_JSON file_path) w))
      | None \<Rightarrow> (PDict [], w))"

text \<open>\<open>with open(path, 'w') as f: json.dump(v, f, indent=4)\<close>; \<open>None\<close> when \<open>open\<close> raises.
  The document replaces the content of the file that the path names.\<close>

definition write_json :: "string \<Rightarrow> pyval \<Rightarrow> world \<Rightarrow> world option" where
  "write_json path v w =
     (if unwritable w path then None
      else Some (w\<lparr>files := (files w)(file_of w path \<mapsto> Json_Doc (jsonify v))\<rparr>))"

definition save_known_connections :: "pyval \<Rightarrow> string \<Rightarrow> world \<Rightarrow> world" where
  "save_known_connections connections file_path w =
     (case write_json file_path connections w of
        Some w' \<Rightarrow> w'
      | None \<Rightarrow> log_msg ERROR (Error_saving_known_connections file_path) w)"

section \<open>check\_for\_new\_connections\<close>

text \<open>
  \<open>known_connections\<close> is whatever \<open>load_known_connections\<close> returned, so \<open>k in known\<close>
  is Python's membership test on any value: key lookup in a dictionary, comparison with
  the elements of a list (where \<open>1 == True\<close> and \<open>0 == False\<close>), substring search in a
  string, and a \<open>TypeError\<close> otherwise.
\<close>

fun key_equals :: "key \<Rightarrow> pyval \<Rightarrow> bool" where
  "key_equals (KInt i) (PInt j) = (i = j)"
| "key_equals (KInt i) (PBool b) = (i = (if b then 1 else 0))"
| "key_equals (KStr s) (PStr t) = (s = t)"
| "key_equals _ _ = False"

fun is_substring :: "string \<Rightarrow> string \<Rightarrow> bool" where
  "is_substring t [] = (t = [])"
| "is_substring t (c # s) = (take (length t) (c # s) = t \<or> is_substring t s)"

fun py_contains :: "pyval \<Rightarrow> key \<Rightarrow> exn + bool" where
  "py_contains (PDict d) k = Inr (dict_has d k)"
| "py_contains (PList vs) k = Inr (list_ex (key_equals k) vs)"
| "py_contains (PStr s) (KStr t) = Inr (is_substring t s)"
| "py_contains (PStr s) (KInt i) = Inl TypeError"
| "py_contains PNone k = Inl TypeError"
| "py_contains (PBool b) k = Inl TypeError"
| "py_contains (PInt i) k = Inl TypeError"

text \<open>The \<open>for\<close> loop over \<open>current_connections.items()\<close>, on the dictionary
  \<open>new_connections\<close> built so far.\<close>

fun find_new :: "pyval \<Rightarrow> dict \<Rightarrow> dict \<Rightarrow> world \<Rightarrow> (exn + dict) \<times> world" where
  "find_new known [] new w = (Inr new, w)"
| "find_new known ((h, details) # items) new w =
     (case py_contains known h of
        Inl e \<Rightarrow> (Inl e, w)
      | Inr True \<Rightarrow> find_new known items new w
      | Inr False \<Rightarrow>
          find_new known items (dict_set new h details)
            (log_msg WARNING (New_connection_detected details) w))"

text \<open>The report after the loop. \<open>if output_file:\<close> is false for \<open>None\<close> and for the
  empty string.\<close>

definition report_new :: "dict \<Rightarrow> string option \<Rightarrow> world \<Rightarrow> world" where
  "report_new new_connections output_file w =
     (if new_connections \<noteq> [] then
        (case output_file of
           None \<Rightarrow> log_msg INFO No_output_file_specified w
         | Some path \<Rightarrow>
             if path \<noteq> [] then
               (case write_json path (PDict new_connections) w of
                  Some w' \<Rightarrow> log_msg INFO (New_connections_written path) w'
                | None \<Rightarrow> log_msg ERROR (Error_writing_new_connections path) w)
             else log_msg INFO No_output_file_specified w)
      else log_msg INFO No_new_connections w)"

definition check_for_new_connections ::
    "pyval \<Rightarrow> dict \<Rightarrow> string option \<Rightarrow> world \<Rightarrow> (exn + dict) \<times> world" where
  "check_for_new_connections known_connections current_connections output_file w =
     (case find_new known_connections current_connections [] w of
        (Inl e, w') \<Rightarrow> (Inl e, w')
      | (Inr new_connections, w') \<Rightarrow>
          (Inr new_connections, report_new new_connections output_file w'))"

section \<open>main\<close>

text \<open>The parsed command line, under the names \<open>main\<close> gives its values.\<close>

record args =
  interval :: int
  known_connections_file :: string
  debug :: bool
  output_file :: "string option"

text \<open>
  One iteration of the \<open>while True\<close> loop. \<open>known_connections.update\<close> exists only on a
  dictionary; \<open>time.sleep\<close> raises \<open>ValueError\<close> on a negative interval. The result records
  the exception that ended the iteration, if any, the values bound to
  \<open>current_connections\<close> and to \<open>new_connections\<close> if the two calls returned, and the
  known connections and the world the iteration left.
\<close>

record tick_result =
  raised :: "exn option"
  collected :: "dict option"
  reported :: "dict option"
  known_after :: pyval
  world_after :: world

definition tick :: "runtime \<Rightarrow> args \<Rightarrow> os_state \<Rightarrow> pyval \<Rightarrow> world \<Rightarrow> tick_result" where
  "tick rt a os known w =
     (case get_current_connections rt os w of
        (Inl e, w1) \<Rightarrow>
          \<lparr>raised = Some e, collected = None, reported = None,
           known_after = known, world_after = w1\<rparr>
      | (Inr current, w1) \<Rightarrow>
          (case check_for_new_connections known current (output_file a) w1 of
             (Inl e, w2) \<Rightarrow>
               \<lparr>raised = Some e, collected = Some current, reported = None,
                known_after = known, world_after = w2\<rparr>
           | (Inr new, w2) \<Rightarrow>
               (case known of
                  PDict d \<Rightarrow>
                    \<lparr>raised = (if interval a < 0 then Some ValueError else None),
                     collected = Some current,
                     reported = Some new,
                     known_after = PDict (dict_update d current),
                     world_after = save_known_connections (PDict (dict_update d current))
                                     (known_connections_file a) w2\<rparr>
                | _ \<Rightarrow>
                    \<lparr>raised = Some AttributeError, collected = Some current, reported = Some new,
                     known_after = known, world_after = w2\<rparr>)))"

text \<open>
  The loop runs until an exception ends it. The operating system is given as the list of
  its states at the successive ticks; when the list is used up the operator's interrupt
  arrives. The result is the list of the iterations that ran.
\<close>

fun polling_loop :: "runtime \<Rightarrow> args \<Rightarrow> os_state list \<Rightarrow> pyval \<Rightarrow> world \<Rightarrow> tick_result list" where
  "polling_loop rt a [] known w = []"
| "polling_loop rt a (os # later) known w =
     (let r = tick rt a os known w
      in r # (case raised r of
                Some e \<Rightarrow> []
              | None \<Rightarrow> polling_loop rt a later (known_after r) (world_after r)))"

definition main :: "runtime \<Rightarrow> args \<Rightarrow> os_state list \<Rightarrow> world \<Rightarrow> world" where
  "main rt a oss w =
     (let w0 = (if debug a then log_msg DEBUG Debug_mode_enabled w else w);
          (known, w1) = load_known_connections (known_connections_file a) w0;
          ticks = polling_loop rt a oss known w1;
          w2 = (if ticks = [] then w1 else world_after (last ticks));
          w3 = (if ticks \<noteq> [] \<and> raised (last ticks) \<noteq> None
                then log_msg ERROR Unexpected_error w2
                else log_msg INFO Exiting_program w2)
      in log_msg INFO Program_terminated w3)"

section \<open>Reading the tables\<close>

text \<open>\<open>details.get(field)\<close> on the value stored for a connection (nothing for a value
  that is not a dictionary).\<close>

definition details_field :: "pyval \<Rightarrow> string \<Rightarrow> pyval option" where
  "details_field details field = (case details of PDict d \<Rightarrow> dict_get d (KStr field) | _ \<Rightarrow> None)"

text \<open>The values that \<open>json.load\<close> returns: at every level a dictionary has string keys
  only, and no key twice.\<close>

fun json_value :: "pyval \<Rightarrow> bool"
  and json_list :: "pyval list \<Rightarrow> bool"
  and json_items :: "dict \<Rightarrow> bool" where
  "json_value PNone = True"
| "json_value (PBool b) = True"
| "json_value (PInt i) = True"
| "json_value (PStr s) = True"
| "json_value (PList vs) = json_list vs"
| "json_value (PDict d) = json_items d"
| "json_list [] = True"
| "json_list (v # vs) = (json_value v \<and> json_list vs)"
| "json_items [] = True"
| "json_items ((k, v) # d) =
     ((case k of KStr s \<Rightarrow> True | KInt i \<Rightarrow> False) \<and> k \<notin> set (dict_keys d)
      \<and> json_value v \<and> json_items d)"

section \<open>Concrete inputs\<close>

text \<open>
  A runtime, a connection table and a world on which the functions are evaluated below.
  The runtime hashes a string to its length. The established connection is that of the
  specification's first scenario; the listening socket has no remote address.
\<close>

definition demo_runtime :: runtime where
  "demo_runtime =
     \<lparr>hash = (\<lambda>s. int (length s)),
      str_family = (\<lambda>f. case f of AF_INET \<Rightarrow> ''AddressFamily.AF_INET''
                               | AF_INET6 \<Rightarrow> ''AddressFamily.AF_INET6''),
      str_type = (\<lambda>t. case t of SOCK_STREAM \<Rightarrow> ''SocketKind.SOCK_STREAM''
                             | SOCK_DGRAM \<Rightarrow> ''SocketKind.SOCK_DGRAM'')\<rparr>"

definition demo_connection :: sconn where
  "demo_connection =
     \<lparr>family = AF_INET, type = SOCK_STREAM,
      laddr = Some \<lparr>ip = ''10.0.0.1'', port = 5000\<rparr>,
      raddr = Some \<lparr>ip = ''93.184.216.34'', port = 443\<rparr>,
      status = ''ESTABLISHED'', pid = Some 100\<rparr>"

definition demo_listener :: sconn where
  "demo_listener =
     \<lparr>family = AF_INET, type = SOCK_STREAM,
      laddr = Some \<lparr>ip = ''0.0.0.0'', port = 22\<rparr>,
      raddr = None,
      status = ''LISTEN'', pid = None\<rparr>"

definition demo_details :: "string \<Rightarrow> pyval" where
  "demo_details pname =
     PDict [(KStr ''pid'', PInt 100),
            (KStr ''local_address'', PStr ''10.0.0.1:5000''),
            (KStr ''remote_address'', PStr ''93.184.216.34:443''),
            (KStr ''status'', PStr ''ESTABLISHED''),
            (KStr ''process_name'', PStr pname),
            (KStr ''family'', PStr ''AddressFamily.AF_INET''),
            (KStr ''type'', PStr ''SocketKind.SOCK_STREAM'')]"

definition demo_os :: "sconn list \<Rightarrow> os_state" where
  "demo_os conns =
     \<lparr>net_connections = Some conns, pid_exists = (\<lambda>p. p = 100),
      process_name = (\<lambda>p. if p = 100 then Name ''curl'' else NoSuchProcess)\<rparr>"

definition demo_world :: world where
  "demo_world =
     \<lparr>file_of = (\<lambda>p. p), files = Map.empty,
      unreadable = (\<lambda>p. False), unwritable = (\<lambda>p. False), logged = []\<rparr>"

definition demo_args :: args where
  "demo_args =
     \<lparr>interval = 5, known_connections_file = ''known_connections.json'', debug = False,
      output_file = Some ''new_connections.json''\<rparr>"

lemmas demo_defs =
  demo_runtime_def demo_connection_def demo_listener_def demo_details_def demo_os_def
  demo_world_def demo_args_def

lemmas eval_defs =
  get_current_connections_def collect_connections_def collect_connection_def
  resolve_process_name_def format_addr_def str_pid_def connection_hash_def connection_details_def
  str_int_def str_nat.simps digit_char_def key_str_def log_msg_def
  dict_keys_def dict_has_def dict_get_def

section \<open>Dictionaries\<close>

lemma dict_keys_simps [simp]:
  "dict_keys [] = []" "dict_keys ((k, v) # d) = k # dict_keys d" "dict_keys (d @ e) = dict_keys d @ dict_keys e"
  by (simp_all add: dict_keys_def)

lemma map_of_dict_set: "map_of (dict_set d k v) = (map_of d)(k \<mapsto> v)"
  by (induction d k v rule: dict_set.induct) auto

lemma keys_dict_set: "set (dict_keys (dict_set d k v)) = insert k (set (dict_keys d))"
  by (induction d k v rule: dict_set.induct) auto

lemma distinct_dict_set: "distinct (dict_keys d) \<Longrightarrow> distinct (dict_keys (dict_set d k v))"
  by (induction d k v rule: dict_set.induct) (auto simp: keys_dict_set)

lemma dict_set_fresh: "k \<notin> set (dict_keys d) \<Longrightarrow> dict_set d k v = d @ [(k, v)]"
  by (induction d k v rule: dict_set.induct) auto

lemma map_of_dict_update: "map_of (dict_update d e) = map_of d ++ map_of (rev e)"
  by (induction d e rule: dict_update.induct) (auto simp: map_of_dict_set fun_eq_iff map_add_def split: option.splits)

lemma keys_dict_update: "set (dict_keys (dict_update d e)) = set (dict_keys d) \<union> set (dict_keys e)"
  by (induction d e rule: dict_update.induct) (auto simp: keys_dict_set)

lemma distinct_dict_update: "distinct (dict_keys d) \<Longrightarrow> distinct (dict_keys (dict_update d e))"
  by (induction d e rule: dict_update.induct) (auto simp: distinct_dict_set)

lemma dict_update_fresh:
  "distinct (dict_keys e) \<Longrightarrow> set (dict_keys d) \<inter> set (dict_keys e) = {} \<Longrightarrow> dict_update d e = d @ e"
proof (induction d e rule: dict_update.induct)
  case (1 d)
  then show ?case by simp
next
  case (2 d k v e)
  then have "dict_set d k v = d @ [(k, v)]"
    by (intro dict_set_fresh) auto
  moreover have "set (dict_keys (d @ [(k, v)])) \<inter> set (dict_keys e) = {}"
    using 2(2,3) by auto
  ultimately show ?case using 2 by simp
qed

lemma find_new_dict:
  "find_new (PDict known) items new w =
     (Inr (dict_update new (filter (\<lambda>(k, v). \<not> dict_has known k) items)),
      w\<lparr>logged := logged w @
          map (\<lambda>(k, v). (WARNING, New_connection_detected v))
              (filter (\<lambda>(k, v). \<not> dict_has known k) items)\<rparr>)"
  by (induction items arbitrary: new w) (auto simp: log_msg_def)

lemma dict_get_dict_update:
  "distinct (dict_keys e) \<Longrightarrow>
   dict_get (dict_update d e) k = (case dict_get e k of Some v \<Rightarrow> Some v | None \<Rightarrow> dict_get d k)"
proof (induction d e rule: dict_update.induct)
  case (1 d)
  then show ?case by (simp add: dict_get_def)
next
  case (2 d k' v' e)
  then have "k' \<notin> set (dict_keys e)" by simp
  then have "map_of e k' = None"
    by (simp add: map_of_eq_None_iff dict_keys_def)
  with 2 show ?case
    by (auto simp: dict_get_def map_of_dict_set split: option.splits)
qed

lemma distinct_keys_filter: "distinct (dict_keys d) \<Longrightarrow> distinct (dict_keys (filter P d))"
  by (simp add: dict_keys_def distinct_map_filter)

lemma dict_update_empty: "distinct (dict_keys e) \<Longrightarrow> dict_update [] e = e"
  using dict_update_fresh [of e "[]"] by simp

lemma set_dict_set: "set (dict_set d k v) \<subseteq> insert (k, v) (set d)"
  by (induction d k v rule: dict_set.induct) auto

section \<open>The diff\<close>

text \<open>Against a dictionary of known connections the loop of
  \<open>check_for_new_connections\<close> never raises: it keeps the items whose key is not known
  and logs one warning for each.\<close>

lemma check_for_new_connections_dict:
  assumes "distinct (dict_keys current)"
  shows "check_for_new_connections (PDict known) current out w =
     (Inr (filter (\<lambda>(k, v). \<not> dict_has known k) current),
      report_new (filter (\<lambda>(k, v). \<not> dict_has known k) current) out
        (w\<lparr>logged := logged w @
            map (\<lambda>(k, v). (WARNING, New_connection_detected v))
                (filter (\<lambda>(k, v). \<not> dict_has known k) current)\<rparr>))"
proof -
  have "dict_update [] (filter (\<lambda>(k, v). \<not> dict_has known k) current)
          = filter (\<lambda>(k, v). \<not> dict_has known k) current"
    using assms by (intro dict_update_empty distinct_keys_filter)
  then show ?thesis
    by (simp add: check_for_new_connections_def find_new_dict)
qed

text \<open>
  Claim C3. For all dictionaries \<open>known\<close> and \<open>current\<close>, \<open>check_for_new_connections\<close>
  returns exactly the items of \<open>current\<close> whose key is not a key of \<open>known\<close>, in the order
  of \<open>current\<close>; the result is empty when every key of \<open>current\<close> is a key of \<open>known\<close>.
  A Python dictionary has no repeated key, which is the hypothesis on the association list.
\<close>

theorem check_for_new_connections_diff:
  assumes "distinct (dict_keys current)"
  shows "fst (check_for_new_connections (PDict known) current out w)
           = Inr (filter (\<lambda>(k, v). \<not> dict_has known k) current)
       \<and> ((\<forall>k \<in> set (dict_keys current). dict_has known k) \<longrightarrow>
            fst (check_for_new_connections (PDict known) current out w) = Inr [])"
proof -
  have eq: "fst (check_for_new_connections (PDict known) current out w)
              = Inr (filter (\<lambda>(k, v). \<not> dict_has known k) current)"
    by (simp add: check_for_new_connections_dict [OF assms])
  have "(\<forall>k \<in> set (dict_keys current). dict_has known k) \<Longrightarrow>
          filter (\<lambda>(k, v). \<not> dict_has known k) current = []"
    by (auto simp: filter_empty_conv dict_keys_def)
  with eq show ?thesis by auto
qed

theorem check_for_new_connections_diff_witness:
  "distinct (dict_keys [(KInt 47, demo_details ''curl'')])
   \<and> fst (check_for_new_connections (PDict []) [(KInt 47, demo_details ''curl'')] None demo_world)
       = Inr [(KInt 47, demo_details ''curl'')]
   \<and> dict_keys [(KInt 47, demo_details ''curl'')] = [KInt 47]
   \<and> dict_has [(KInt 47, demo_details ''wget'')] (KInt 47)
   \<and> fst (check_for_new_connections (PDict [(KInt 47, demo_details ''wget'')])
            [(KInt 47, demo_details ''curl'')] None demo_world) = Inr []"
proof -
  have d: "distinct (dict_keys [(KInt 47, demo_details ''curl'')])" by simp
  show ?thesis
    using d check_for_new_connections_diff [OF d, of "[]" None demo_world]
      check_for_new_connections_diff [OF d, of "[(KInt 47, demo_details ''wget'')]" None demo_world]
    by (simp add: dict_has_def)
qed

section \<open>The snapshot\<close>

lemma collect_connection_distinct:
  "distinct (dict_keys (fst cw)) \<Longrightarrow> distinct (dict_keys (fst (collect_connection rt os c cw)))"
  by (auto simp: collect_connection_def Let_def distinct_dict_set split: prod.splits option.splits)

lemma fold_collect_distinct:
  "distinct (dict_keys (fst cw)) \<Longrightarrow>
   distinct (dict_keys (fst (fold (collect_connection rt os) conns cw)))"
  by (induction conns arbitrary: cw) (auto simp: collect_connection_distinct)

lemma get_current_connections_distinct:
  "get_current_connections rt os w = (Inr current, w') \<Longrightarrow> distinct (dict_keys current)"
proof -
  assume a: "get_current_connections rt os w = (Inr current, w')"
  then obtain conns where c: "net_connections os = Some conns"
    by (cases "net_connections os") (auto simp: get_current_connections_def)
  with a have "current = fst (fold (collect_connection rt os) conns ([], w))"
    by (auto simp: get_current_connections_def collect_connections_def split: prod.splits)
  then show ?thesis
    using fold_collect_distinct [of "([], w)" rt os conns] by simp
qed

lemma collect_connection_skip:
  "\<not> (laddr c \<noteq> None \<and> raddr c \<noteq> None) \<Longrightarrow> collect_connection rt os c cw = cw"
  by (auto simp: collect_connection_def split: prod.splits option.splits)

lemma fold_collect_filter:
  "fold (collect_connection rt os) (filter (\<lambda>c. laddr c \<noteq> None \<and> raddr c \<noteq> None) conns) cw
     = fold (collect_connection rt os) conns cw"
  by (induction conns arbitrary: cw) (simp_all add: collect_connection_skip)

lemma collect_connection_origin:
  "kv \<in> set (fst (collect_connection rt os c cw)) \<Longrightarrow>
     kv \<in> set (fst cw) \<or>
     (\<exists>la ra pname. laddr c = Some la \<and> raddr c = Some ra
        \<and> fst kv = KInt (connection_hash rt (pid c) (format_addr la) (format_addr ra) (status c))
        \<and> snd kv = connection_details rt c (format_addr la) (format_addr ra) pname)"
  using set_dict_set
  by (fastforce simp: collect_connection_def Let_def split: prod.splits option.splits)

lemma fold_collect_origin:
  "kv \<in> set (fst (fold (collect_connection rt os) conns cw)) \<Longrightarrow>
     kv \<in> set (fst cw) \<or>
     (\<exists>c \<in> set conns. \<exists>la ra pname. laddr c = Some la \<and> raddr c = Some ra
        \<and> fst kv = KInt (connection_hash rt (pid c) (format_addr la) (format_addr ra) (status c))
        \<and> snd kv = connection_details rt c (format_addr la) (format_addr ra) pname)"
proof (induction conns arbitrary: cw)
  case Nil
  then show ?case by simp
next
  case (Cons c conns)
  from Cons.IH [of "collect_connection rt os c cw"] Cons.prems
  have "kv \<in> set (fst (collect_connection rt os c cw)) \<or>
     (\<exists>c \<in> set conns. \<exists>la ra pname. laddr c = Some la \<and> raddr c = Some ra
        \<and> fst kv = KInt (connection_hash rt (pid c) (format_addr la) (format_addr ra) (status c))
        \<and> snd kv = connection_details rt c (format_addr la) (format_addr ra) pname)"
    by simp
  then show ?case
    using collect_connection_origin [of kv rt os c cw] by auto
qed

lemma collect_connection_same_os:
  "collect_connection rt (os\<lparr>net_connections := x\<rparr>) = collect_connection rt os"
proof -
  have r: "resolve_process_name (os\<lparr>net_connections := x\<rparr>) p v = resolve_process_name os p v" for p v
    by (simp add: resolve_process_name_def split: option.splits lookup.splits)
  show ?thesis
    by (rule ext, rule ext) (simp add: collect_connection_def r split: prod.splits option.splits)
qed

text \<open>
  Claim C7. For every list of raw records, every item of the snapshot was built from a raw
  record that has both a local and a remote address, with that record's hash as key; and
  the call returns the same snapshot and the same world, log included, as on the list
  with the records that lack an address removed: they are skipped without a trace.
\<close>

theorem filter_invariant:
  assumes "net_connections os = Some conns"
  shows "\<exists>snapshot w'. get_current_connections rt os w = (Inr snapshot, w')
     \<and> (\<forall>kv \<in> set snapshot. \<exists>c \<in> set conns. \<exists>la ra pname.
            laddr c = Some la \<and> raddr c = Some ra
          \<and> fst kv = KInt (connection_hash rt (pid c) (format_addr la) (format_addr ra) (status c))
          \<and> snd kv = connection_details rt c (format_addr la) (format_addr ra) pname)
     \<and> get_current_connections rt
          (os\<lparr>net_connections := Some (filter (\<lambda>c. laddr c \<noteq> None \<and> raddr c \<noteq> None) conns)\<rparr>) w
         = (Inr snapshot, w')"
proof -
  obtain snapshot w' where f: "fold (collect_connection rt os) conns ([], w) = (snapshot, w')"
    by (cases "fold (collect_connection rt os) conns ([], w)")
  have 1: "get_current_connections rt os w = (Inr snapshot, w')"
    using assms f by (simp add: get_current_connections_def collect_connections_def)
  have 2: "\<exists>c \<in> set conns. \<exists>la ra pname. laddr c = Some la \<and> raddr c = Some ra
        \<and> fst kv = KInt (connection_hash rt (pid c) (format_addr la) (format_addr ra) (status c))
        \<and> snd kv = connection_details rt c (format_addr la) (format_addr ra) pname"
    if "kv \<in> set snapshot" for kv
    using fold_collect_origin [of kv rt os conns "([], w)"] that f by simp
  have 3: "get_current_connections rt
          (os\<lparr>net_connections := Some (filter (\<lambda>c. laddr c \<noteq> None \<and> raddr c \<noteq> None) conns)\<rparr>) w
         = (Inr snapshot, w')"
    using f by (simp add: get_current_connections_def collect_connections_def
        collect_connection_same_os fold_collect_filter del: not_None_eq)
  from 1 2 3 show ?thesis by blast
qed

theorem filter_invariant_witness:
  "net_connections (demo_os [demo_listener, demo_connection]) = Some [demo_listener, demo_connection]
   \<and> raddr demo_listener = None
   \<and> get_current_connections demo_runtime (demo_os [demo_listener, demo_connection]) demo_world
       = (Inr [(KInt 47, demo_details ''curl'')], demo_world)"
proof -
  have h: "net_connections (demo_os [demo_listener, demo_connection])
             = Some [demo_listener, demo_connection]"
    by (simp add: demo_os_def)
  show ?thesis
    using h filter_invariant [OF h, of demo_runtime demo_world]
    by (simp add: demo_defs eval_defs)
qed

section \<open>The merge\<close>

lemma tick_dict:
  assumes "get_current_connections rt os w = (Inr current, w1)"
  shows "tick rt a os (PDict known) w =
     \<lparr>raised = (if interval a < 0 then Some ValueError else None),
      collected = Some current,
      reported = Some (filter (\<lambda>(k, v). \<not> dict_has known k) current),
      known_after = PDict (dict_update known current),
      world_after = save_known_connections (PDict (dict_update known current)) (known_connections_file a)
                      (snd (check_for_new_connections (PDict known) current (output_file a) w1))\<rparr>"
proof -
  have d: "distinct (dict_keys current)"
    using assms by (rule get_current_connections_distinct)
  show ?thesis
    using assms by (simp add: tick_def check_for_new_connections_dict [OF d])
qed

text \<open>
  Claim C5. For all dictionaries \<open>known\<close> and \<open>current\<close>, after \<open>known.update(current)\<close>
  every key of \<open>known\<close> is still a key, every key of \<open>current\<close> is a key and carries the
  record of \<open>current\<close>, and a key that is not in \<open>current\<close> keeps the record it had: no
  entry is removed. This merge is what a tick of \<open>main\<close> that collects the snapshot
  \<open>current\<close> does to its known connections. A Python dictionary has no repeated key,
  which is the hypothesis on the association list.
\<close>

theorem merge_monotone:
  assumes "distinct (dict_keys current)"
  shows "(\<forall>k. dict_has known k \<longrightarrow> dict_has (dict_update known current) k)
       \<and> (\<forall>k. dict_has current k \<longrightarrow>
              dict_has (dict_update known current) k
            \<and> dict_get (dict_update known current) k = dict_get current k)
       \<and> (\<forall>k. \<not> dict_has current k \<longrightarrow> dict_get (dict_update known current) k = dict_get known k)
       \<and> (\<forall>rt a os w w1. get_current_connections rt os w = (Inr current, w1) \<longrightarrow>
              known_after (tick rt a os (PDict known) w) = PDict (dict_update known current))"
proof -
  have none: "dict_get current k = None" if "\<not> dict_has current k" for k
    using that by (simp add: dict_get_def dict_has_def dict_keys_def map_of_eq_None_iff)
  have some: "\<exists>v. dict_get current k = Some v" if "dict_has current k" for k
    using that by (cases "dict_get current k") (auto simp: dict_get_def dict_has_def dict_keys_def map_of_eq_None_iff)
  have get: "dict_get (dict_update known current) k =
      (if dict_has current k then dict_get current k else dict_get known k)" for k
    using some [of k] none [of k] by (auto simp: dict_get_dict_update [OF assms])
  have has: "dict_has (dict_update known current) k = (dict_has known k \<or> dict_has current k)" for k
    by (simp add: dict_has_def keys_dict_update)
  have t: "known_after (tick rt a os (PDict known) w) = PDict (dict_update known current)"
    if "get_current_connections rt os w = (Inr current, w1)" for rt a os w w1
    by (simp add: tick_dict [OF that])
  show ?thesis
    using t by (simp add: get has)
qed

theorem merge_monotone_witness:
  "distinct (dict_keys [(KInt 47, demo_details ''curl'')])
   \<and> dict_has [(KStr ''12'', PNone), (KInt 47, demo_details ''wget'')] (KStr ''12'')
   \<and> dict_has [(KInt 47, demo_details ''curl'')] (KInt 47)
   \<and> \<not> dict_has [(KInt 47, demo_details ''curl'')] (KStr ''12'')
   \<and> dict_update [(KStr ''12'', PNone), (KInt 47, demo_details ''wget'')] [(KInt 47, demo_details ''curl'')]
       = [(KStr ''12'', PNone), (KInt 47, demo_details ''curl'')]
   \<and> get_current_connections demo_runtime (demo_os [demo_connection]) demo_world
       = (Inr [(KInt 47, demo_details ''curl'')], demo_world)
   \<and> known_after (tick demo_runtime demo_args (demo_os [demo_connection])
                     (PDict [(KStr ''12'', PNone), (KInt 47, demo_details ''wget'')]) demo_world)
       = PDict [(KStr ''12'', PNone), (KInt 47, demo_details ''curl'')]"
proof -
  have d: "distinct (dict_keys [(KInt 47, demo_details ''curl'')])" by simp
  have h: "get_current_connections demo_runtime (demo_os [demo_connection]) demo_world
     = (Inr [(KInt 47, demo_details ''curl'')], demo_world)"
    by (simp add: demo_defs eval_defs)
  from merge_monotone [OF d, of "[(KStr ''12'', PNone), (KInt 47, demo_details ''wget'')]"]
  have "get_current_connections demo_runtime (demo_os [demo_connection]) demo_world
            = (Inr [(KInt 47, demo_details ''curl'')], demo_world) \<longrightarrow>
        known_after (tick demo_runtime demo_args (demo_os [demo_connection])
                     (PDict [(KStr ''12'', PNone), (KInt 47, demo_details ''wget'')]) demo_world)
          = PDict (dict_update [(KStr ''12'', PNone), (KInt 47, demo_details ''wget'')]
                     [(KInt 47, demo_details ''curl'')])"
    by blast
  with h d show ?thesis
    by (simp add: dict_has_def)
qed

section \<open>Loading\<close>

text \<open>
  Claim C6. \<open>load_known_connections\<close> returns the empty dictionary for a path that does
  not exist, for an empty file and for a file that is not JSON. It is a total function
  into values: no exception leaves it.
\<close>

theorem load_resilience:
  "(files w (file_of w p) = None \<longrightarrow> fst (load_known_connections p w) = PDict [])
 \<and> (files w (file_of w p) = Some Empty_File \<longrightarrow> fst (load_known_connections p w) = PDict [])
 \<and> (files w (file_of w p) = Some Invalid_Json \<longrightarrow> fst (load_known_connections p w) = PDict [])"
  by (simp add: load_known_connections_def)

theorem load_resilience_witness:
  "files demo_world (file_of demo_world ''known_connections.json'') = None
   \<and> fst (load_known_connections ''known_connections.json'' demo_world) = PDict []
   \<and> files (demo_world\<lparr>files := [''known_connections.json'' \<mapsto> Empty_File]\<rparr>)
         (file_of (demo_world\<lparr>files := [''known_connections.json'' \<mapsto> Empty_File]\<rparr>)
            ''known_connections.json'') = Some Empty_File
   \<and> fst (load_known_connections ''known_connections.json''
            (demo_world\<lparr>files := [''known_connections.json'' \<mapsto> Empty_File]\<rparr>)) = PDict []
   \<and> files (demo_world\<lparr>files := [''known_connections.json'' \<mapsto> Invalid_Json]\<rparr>)
         (file_of (demo_world\<lparr>files := [''known_connections.json'' \<mapsto> Invalid_Json]\<rparr>)
            ''known_connections.json'') = Some Invalid_Json
   \<and> fst (load_known_connections ''known_connections.json''
            (demo_world\<lparr>files := [''known_connections.json'' \<mapsto> Invalid_Json]\<rparr>)) = PDict []"
  using load_resilience [of demo_world "''known_connections.json''"]
    load_resilience [of "demo_world\<lparr>files := [''known_connections.json'' \<mapsto> Empty_File]\<rparr>" "''known_connections.json''"]
    load_resilience [of "demo_world\<lparr>files := [''known_connections.json'' \<mapsto> Invalid_Json]\<rparr>" "''known_connections.json''"]
  by (simp add: demo_world_def)

section \<open>What the functions leave untouched\<close>

lemma log_msg_storage [simp]:
  "file_of (log_msg l m w) = file_of w"
  "files (log_msg l m w) = files w"
  "unreadable (log_msg l m w) = unreadable w"
  "unwritable (log_msg l m w) = unwritable w"
  by (simp_all add: log_msg_def)

lemma resolve_process_name_storage:
  "resolve_process_name os p w = (r, w') \<Longrightarrow>
     file_of w' = file_of w \<and> files w' = files w
   \<and> unreadable w' = unreadable w \<and> unwritable w' = unwritable w"
  by (auto simp: resolve_process_name_def split: option.splits if_splits lookup.splits)

lemma collect_connection_storage:
  "collect_connection rt os c (d, w) = (d', w') \<Longrightarrow>
     file_of w' = file_of w \<and> files w' = files w
   \<and> unreadable w' = unreadable w \<and> unwritable w' = unwritable w"
  by (auto simp: collect_connection_def Let_def split: option.splits prod.splits
      dest!: resolve_process_name_storage)

lemma fold_collect_storage:
  "fold (collect_connection rt os) conns (d, w) = (d', w') \<Longrightarrow>
     file_of w' = file_of w \<and> files w' = files w
   \<and> unreadable w' = unreadable w \<and> unwritable w' = unwritable w"
proof (induction conns arbitrary: d w)
  case Nil
  then show ?case by simp
next
  case (Cons c conns)
  obtain d1 w1 where s: "collect_connection rt os c (d, w) = (d1, w1)"
    by (cases "collect_connection rt os c (d, w)")
  with Cons.prems have "fold (collect_connection rt os) conns (d1, w1) = (d', w')" by simp
  from Cons.IH [OF this] collect_connection_storage [OF s] show ?case by simp
qed

lemma get_current_connections_storage:
  "get_current_connections rt os w = (r, w') \<Longrightarrow>
     file_of w' = file_of w \<and> files w' = files w
   \<and> unreadable w' = unreadable w \<and> unwritable w' = unwritable w"
  by (auto simp: get_current_connections_def collect_connections_def split: option.splits prod.splits
      dest!: fold_collect_storage)

lemma find_new_storage:
  "find_new known items new w = (r, w') \<Longrightarrow>
     file_of w' = file_of w \<and> files w' = files w
   \<and> unreadable w' = unreadable w \<and> unwritable w' = unwritable w"
proof (induction known items new w rule: find_new.induct)
  case (1 known new w)
  then show ?case by simp
next
  case (2 known h details items new w)
  then show ?case
    by (cases "py_contains known h") (auto split: bool.splits if_splits)
qed

lemma report_new_storage:
  "file_of (report_new new out w) = file_of w"
  "unreadable (report_new new out w) = unreadable w"
  "unwritable (report_new new out w) = unwritable w"
  by (simp_all add: report_new_def write_json_def split: option.splits)

lemma report_new_files:
  "files (report_new new out w) =
     (case out of
        Some p \<Rightarrow> if new \<noteq> [] \<and> p \<noteq> [] \<and> \<not> unwritable w p
                  then (files w)(file_of w p \<mapsto> Json_Doc (jsonify (PDict new))) else files w
      | None \<Rightarrow> files w)"
  by (simp add: report_new_def write_json_def split: option.splits)

lemma save_known_connections_storage:
  "file_of (save_known_connections m p w) = file_of w"
  "unreadable (save_known_connections m p w) = unreadable w"
  "unwritable (save_known_connections m p w) = unwritable w"
  "f \<noteq> file_of w p \<Longrightarrow> files (save_known_connections m p w) f = files w f"
  by (simp_all add: save_known_connections_def write_json_def)

lemma check_for_new_connections_storage:
  "check_for_new_connections known current out w = (r, w') \<Longrightarrow>
     file_of w' = file_of w \<and> unreadable w' = unreadable w \<and> unwritable w' = unwritable w"
  by (auto simp: check_for_new_connections_def report_new_storage
      split: prod.splits sum.splits dest!: find_new_storage)

section \<open>Saving\<close>

text \<open>
  Claim C9. When the file of known connections cannot be written,
  \<open>save_known_connections\<close> changes nothing but the log, to which it adds one error; the
  tick that called it ends as it would have ended otherwise, and the known connections in
  memory are the merged ones.
\<close>

theorem save_failure_absorbed:
  assumes "unwritable w (known_connections_file a)"
    and "get_current_connections rt os w = (Inr current, w1)"
  shows "save_known_connections m (known_connections_file a) w
           = w\<lparr>logged := logged w @ [(ERROR, Error_saving_known_connections (known_connections_file a))]\<rparr>
       \<and> known_after (tick rt a os (PDict known) w) = PDict (dict_update known current)
       \<and> raised (tick rt a os (PDict known) w) = (if interval a < 0 then Some ValueError else None)
       \<and> last (logged (world_after (tick rt a os (PDict known) w)))
           = (ERROR, Error_saving_known_connections (known_connections_file a))"
proof -
  obtain r w2 where c: "check_for_new_connections (PDict known) current (output_file a) w1 = (r, w2)"
    by (cases "check_for_new_connections (PDict known) current (output_file a) w1")
  have "unwritable w2 = unwritable w"
    using check_for_new_connections_storage [OF c] get_current_connections_storage [OF assms(2)]
    by simp
  with assms(1) have u: "unwritable w2 (known_connections_file a)" by simp
  have s: "save_known_connections m' (known_connections_file a) v
           = v\<lparr>logged := logged v @ [(ERROR, Error_saving_known_connections (known_connections_file a))]\<rparr>"
    if "unwritable v (known_connections_file a)" for m' v
    using that by (simp add: save_known_connections_def write_json_def log_msg_def)
  show ?thesis
    using s [OF assms(1)] s [OF u] c by (simp add: tick_dict [OF assms(2)])
qed

theorem save_failure_absorbed_witness:
  "unwritable (demo_world\<lparr>unwritable := (\<lambda>p. p = ''known_connections.json'')\<rparr>)
       (known_connections_file demo_args)
   \<and> get_current_connections demo_runtime (demo_os [demo_connection])
        (demo_world\<lparr>unwritable := (\<lambda>p. p = ''known_connections.json'')\<rparr>)
       = (Inr [(KInt 47, demo_details ''curl'')],
          demo_world\<lparr>unwritable := (\<lambda>p. p = ''known_connections.json'')\<rparr>)
   \<and> known_after (tick demo_runtime demo_args (demo_os [demo_connection]) (PDict [])
        (demo_world\<lparr>unwritable := (\<lambda>p. p = ''known_connections.json'')\<rparr>))
       = PDict [(KInt 47, demo_details ''curl'')]
   \<and> raised (tick demo_runtime demo_args (demo_os [demo_connection]) (PDict [])
        (demo_world\<lparr>unwritable := (\<lambda>p. p = ''known_connections.json'')\<rparr>)) = None
   \<and> last (logged (world_after (tick demo_runtime demo_args (demo_os [demo_connection]) (PDict [])
        (demo_world\<lparr>unwritable := (\<lambda>p. p = ''known_connections.json'')\<rparr>))))
       = (ERROR, Error_saving_known_connections ''known_connections.json'')"
proof -
  have u: "unwritable (demo_world\<lparr>unwritable := (\<lambda>p. p = ''known_connections.json'')\<rparr>)
       (known_connections_file demo_args)"
    by (simp add: demo_args_def)
  have g: "get_current_connections demo_runtime (demo_os [demo_connection])
        (demo_world\<lparr>unwritable := (\<lambda>p. p = ''known_connections.json'')\<rparr>)
       = (Inr [(KInt 47, demo_details ''curl'')],
          demo_world\<lparr>unwritable := (\<lambda>p. p = ''known_connections.json'')\<rparr>)"
    by (simp add: demo_defs eval_defs)
  show ?thesis
    using u g save_failure_absorbed [OF u g, of PNone "[]"]
    by (simp add: demo_args_def)
qed

section \<open>The output file\<close>

text \<open>
  Claim C8, as amended. When a tick's check returns a non-empty dictionary of new
  connections, the output path is a non-empty string, the file it names is not the file
  that the path of the known connections names, and the output path can be written, then
  after the tick the output file holds the JSON document of exactly the new connections.
\<close>

theorem output_file_contents:
  assumes "reported (tick rt a os known w) = Some new"
    and "new \<noteq> []"
    and "output_file a = Some p"
    and "p \<noteq> []"
    and "\<not> unwritable w p"
    and "file_of w p \<noteq> file_of w (known_connections_file a)"
  shows "files (world_after (tick rt a os known w)) (file_of w p)
           = Some (Json_Doc (jsonify (PDict new)))"
proof -
  obtain r1 w1 where g: "get_current_connections rt os w = (r1, w1)"
    by (cases "get_current_connections rt os w")
  with assms(1) obtain current where r1: "r1 = Inr current"
    by (cases r1) (auto simp: tick_def)
  obtain r2 w2 where f: "find_new known current [] w1 = (r2, w2)"
    by (cases "find_new known current [] w1")
  with assms(1) g r1 have r2: "r2 = Inr new"
    by (cases r2; cases known) (auto simp: tick_def check_for_new_connections_def)
  have u: "\<not> unwritable w2 p" and n: "file_of w2 = file_of w"
    using find_new_storage [OF f] get_current_connections_storage [OF g] assms(5) by simp_all
  have c: "check_for_new_connections known current (output_file a) w1
             = (Inr new, report_new new (Some p) w2)"
    using f r2 assms(3) by (simp add: check_for_new_connections_def)
  have w: "files (report_new new (Some p) w2) (file_of w p) = Some (Json_Doc (jsonify (PDict new)))"
    using u n assms(2,4) by (simp add: report_new_files)
  have k: "file_of w p \<noteq> file_of (report_new new (Some p) w2) (known_connections_file a)"
    using n assms(6) by (simp add: report_new_storage)
  show ?thesis
    using g r1 c w k
    by (cases known) (simp_all add: tick_def save_known_connections_storage)
qed

lemmas tick_eval_defs =
  tick_def check_for_new_connections_def report_new_def write_json_def
  save_known_connections_def load_known_connections_def

text \<open>
  Claim C8 as stated fails in three ways. With the output path equal to the path of the
  known connections, \<open>save_known_connections\<close> overwrites the report within the same tick
  and the file holds the whole known set; the same happens when the two paths are spelled
  differently and name one file; and with an output path that cannot be written the file
  is not created.
\<close>

theorem output_file_contents_counterexample:
  "reported (tick demo_runtime (demo_args\<lparr>output_file := Some ''known_connections.json''\<rparr>)
       (demo_os [demo_connection]) (PDict [(KInt 9, demo_details ''wget'')]) demo_world)
     = Some [(KInt 47, demo_details ''curl'')]
   \<and> jsonify (PDict [(KInt 47, demo_details ''curl'')]) = PDict [(KStr ''47'', demo_details ''curl'')]
   \<and> files (world_after (tick demo_runtime (demo_args\<lparr>output_file := Some ''known_connections.json''\<rparr>)
       (demo_os [demo_connection]) (PDict [(KInt 9, demo_details ''wget'')]) demo_world))
       ''known_connections.json''
     = Some (Json_Doc (PDict [(KStr ''9'', demo_details ''wget''), (KStr ''47'', demo_details ''curl'')]))
   \<and> ''./known_connections.json'' \<noteq> known_connections_file demo_args
   \<and> file_of (demo_world\<lparr>file_of := (\<lambda>p. if p = ''./known_connections.json''
                                              then ''known_connections.json'' else p)\<rparr>)
        ''./known_connections.json'' = ''known_connections.json''
   \<and> reported (tick demo_runtime (demo_args\<lparr>output_file := Some ''./known_connections.json''\<rparr>)
       (demo_os [demo_connection]) (PDict [(KInt 9, demo_details ''wget'')])
       (demo_world\<lparr>file_of := (\<lambda>p. if p = ''./known_connections.json''
                                      then ''known_connections.json'' else p)\<rparr>))
     = Some [(KInt 47, demo_details ''curl'')]
   \<and> files (world_after (tick demo_runtime (demo_args\<lparr>output_file := Some ''./known_connections.json''\<rparr>)
       (demo_os [demo_connection]) (PDict [(KInt 9, demo_details ''wget'')])
       (demo_world\<lparr>file_of := (\<lambda>p. if p = ''./known_connections.json''
                                      then ''known_connections.json'' else p)\<rparr>)))
       ''known_connections.json''
     = Some (Json_Doc (PDict [(KStr ''9'', demo_details ''wget''), (KStr ''47'', demo_details ''curl'')]))
   \<and> reported (tick demo_runtime demo_args (demo_os [demo_connection]) (PDict [])
       (demo_world\<lparr>unwritable := (\<lambda>p. p = ''new_connections.json'')\<rparr>))
     = Some [(KInt 47, demo_details ''curl'')]
   \<and> files (world_after (tick demo_runtime demo_args (demo_os [demo_connection]) (PDict [])
       (demo_world\<lparr>unwritable := (\<lambda>p. p = ''new_connections.json'')\<rparr>)))
       ''new_connections.json'' = None"
  by (simp add: demo_defs eval_defs tick_eval_defs)

theorem output_file_contents_witness:
  "reported (tick demo_runtime demo_args (demo_os [demo_connection])
       (PDict [(KInt 9, demo_details ''wget'')]) demo_world)
     = Some [(KInt 47, demo_details ''curl'')]
   \<and> output_file demo_args = Some ''new_connections.json''
   \<and> \<not> unwritable demo_world ''new_connections.json''
   \<and> file_of demo_world ''new_connections.json'' = ''new_connections.json''
   \<and> file_of demo_world (known_connections_file demo_args) = ''known_connections.json''
   \<and> files (world_after (tick demo_runtime demo_args (demo_os [demo_connection])
       (PDict [(KInt 9, demo_details ''wget'')]) demo_world)) ''new_connections.json''
     = Some (Json_Doc (PDict [(KStr ''47'', demo_details ''curl'')]))"
proof -
  have r: "reported (tick demo_runtime demo_args (demo_os [demo_connection])
       (PDict [(KInt 9, demo_details ''wget'')]) demo_world)
     = Some [(KInt 47, demo_details ''curl'')]"
    by (simp add: demo_defs eval_defs tick_eval_defs)
  have o: "output_file demo_args = Some ''new_connections.json''"
    by (simp add: demo_args_def)
  have u: "\<not> unwritable demo_world ''new_connections.json''"
    by (simp add: demo_world_def)
  have n: "file_of demo_world ''new_connections.json'' = ''new_connections.json''"
    "file_of demo_world (known_connections_file demo_args) = ''known_connections.json''"
    by (simp_all add: demo_world_def demo_args_def)
  have k: "file_of demo_world ''new_connections.json'' \<noteq> file_of demo_world (known_connections_file demo_args)"
    by (simp add: n)
  have j: "jsonify (PDict [(KInt 47, demo_details ''curl'')]) = PDict [(KStr ''47'', demo_details ''curl'')]"
    by (simp add: demo_defs eval_defs)
  from output_file_contents [OF r _ o _ u k] j r o u n show ?thesis by simp
qed

section \<open>The fingerprint\<close>

lemma details_field_connection_details:
  "details_field (connection_details rt c la ra pname) ''pid''
     = Some (case pid c of None \<Rightarrow> PNone | Some p \<Rightarrow> PInt p)"
  "details_field (connection_details rt c la ra pname) ''local_address'' = Some (PStr la)"
  "details_field (connection_details rt c la ra pname) ''remote_address'' = Some (PStr ra)"
  "details_field (connection_details rt c la ra pname) ''status'' = Some (PStr (status c))"
  "details_field (connection_details rt c la ra pname) ''process_name'' = Some (PStr pname)"
  by (simp_all add: details_field_def connection_details_def dict_get_def)

lemma get_current_connections_origin:
  assumes "get_current_connections rt os w = (Inr snapshot, w')" and "kv \<in> set snapshot"
  shows "\<exists>c la ra pname.
           fst kv = KInt (connection_hash rt (pid c) la ra (status c))
         \<and> snd kv = connection_details rt c la ra pname"
proof -
  from assms(1) obtain conns where c: "net_connections os = Some conns"
    by (cases "net_connections os") (auto simp: get_current_connections_def)
  with assms(1) have "snapshot = fst (fold (collect_connection rt os) conns ([], w))"
    by (auto simp: get_current_connections_def collect_connections_def split: prod.splits)
  with assms(2) fold_collect_origin [of kv rt os conns "([], w)"] show ?thesis
    by auto
qed

text \<open>
  Within one interpreter process (one \<open>runtime\<close>), two records of any two snapshots whose
  \<open>pid\<close>, \<open>local_address\<close>, \<open>remote_address\<close> and \<open>status\<close> agree are stored under the same
  key, whatever their \<open>process_name\<close>, \<open>family\<close> and \<open>type\<close> and whatever the operating
  system answered when they were collected.
\<close>

lemma fingerprint_within_process:
  assumes "get_current_connections rt os1 w1 = (Inr snapshot1, w1')"
    and "get_current_connections rt os2 w2 = (Inr snapshot2, w2')"
    and "(k1, d1) \<in> set snapshot1"
    and "(k2, d2) \<in> set snapshot2"
    and "details_field d1 ''pid'' = details_field d2 ''pid''"
    and "details_field d1 ''local_address'' = details_field d2 ''local_address''"
    and "details_field d1 ''remote_address'' = details_field d2 ''remote_address''"
    and "details_field d1 ''status'' = details_field d2 ''status''"
  shows "k1 = k2"
proof -
  from get_current_connections_origin [OF assms(1,3)]
  obtain c1 la1 ra1 n1 where 1:
    "k1 = KInt (connection_hash rt (pid c1) la1 ra1 (status c1))"
    "d1 = connection_details rt c1 la1 ra1 n1"
    by auto
  from get_current_connections_origin [OF assms(2,4)]
  obtain c2 la2 ra2 n2 where 2:
    "k2 = KInt (connection_hash rt (pid c2) la2 ra2 (status c2))"
    "d2 = connection_details rt c2 la2 ra2 n2"
    by auto
  from assms(5) 1(2) 2(2) have "pid c1 = pid c2"
    by (auto simp: details_field_connection_details split: option.splits)
  moreover from assms(6,7,8) 1(2) 2(2) have "la1 = la2" "ra1 = ra2" "status c1 = status c2"
    by (simp_all add: details_field_connection_details)
  ultimately show ?thesis using 1(1) 2(1) by simp
qed

text \<open>
  Claim C4. The key is \<open>hash\<close> of a string, and \<open>hash\<close> on strings is a function of the
  interpreter process: two runs of the program are two runtimes. The same record, with
  the same \<open>pid\<close>, addresses and \<open>status\<close>, collected by two runtimes whose \<open>hash\<close> differ
  on its string gets two keys, and the key of the second run is new against the table of
  the first: the key is not a function of the four fields alone.
\<close>

theorem fingerprint_across_processes:
  "get_current_connections demo_runtime (demo_os [demo_connection]) demo_world
     = (Inr [(KInt 47, demo_details ''curl'')], demo_world)
   \<and> get_current_connections (demo_runtime\<lparr>hash := (\<lambda>s. int (length s) + 1)\<rparr>)
        (demo_os [demo_connection]) demo_world
     = (Inr [(KInt 48, demo_details ''curl'')], demo_world)
   \<and> fst (check_for_new_connections (PDict [(KInt 47, demo_details ''curl'')])
            [(KInt 48, demo_details ''curl'')] None demo_world)
     = Inr [(KInt 48, demo_details ''curl'')]"
  by (simp add: demo_defs eval_defs check_for_new_connections_def)

section \<open>The process name\<close>

lemma collect_connection_keeps_keys:
  "dict_has (fst cw) k \<Longrightarrow> dict_has (fst (collect_connection rt os c cw)) k"
  by (auto simp: collect_connection_def Let_def dict_has_def keys_dict_set
      split: prod.splits option.splits)

lemma fold_collect_keeps_keys:
  "dict_has (fst cw) k \<Longrightarrow> dict_has (fst (fold (collect_connection rt os) conns cw)) k"
  by (induction conns arbitrary: cw) (auto simp: collect_connection_keeps_keys)

lemma collect_connection_other_key:
  assumes "\<And>la ra. laddr c = Some la \<Longrightarrow> raddr c = Some ra \<Longrightarrow>
             connection_hash rt (pid c) (format_addr la) (format_addr ra) (status c) \<noteq> h"
  shows "dict_get (fst (collect_connection rt os c cw)) (KInt h) = dict_get (fst cw) (KInt h)"
  using assms
  by (auto simp: collect_connection_def Let_def dict_get_def map_of_dict_set
      split: prod.splits option.splits)

lemma fold_collect_other_key:
  assumes "\<And>c la ra. c \<in> set conns \<Longrightarrow> laddr c = Some la \<Longrightarrow> raddr c = Some ra \<Longrightarrow>
             connection_hash rt (pid c) (format_addr la) (format_addr ra) (status c) \<noteq> h"
  shows "dict_get (fst (fold (collect_connection rt os) conns cw)) (KInt h) = dict_get (fst cw) (KInt h)"
  using assms
proof (induction conns arbitrary: cw)
  case Nil
  then show ?case by simp
next
  case (Cons c conns)
  have "dict_get (fst (fold (collect_connection rt os) conns (collect_connection rt os c cw))) (KInt h)
          = dict_get (fst (collect_connection rt os c cw)) (KInt h)"
  proof (rule Cons.IH)
    fix c' la ra
    assume "c' \<in> set conns" "laddr c' = Some la" "raddr c' = Some ra"
    then show "connection_hash rt (pid c') (format_addr la) (format_addr ra) (status c') \<noteq> h"
      using Cons.prems [of c' la ra] by simp
  qed
  also have "\<dots> = dict_get (fst cw) (KInt h)"
  proof (rule collect_connection_other_key)
    fix la ra
    assume "laddr c = Some la" "raddr c = Some ra"
    then show "connection_hash rt (pid c) (format_addr la) (format_addr ra) (status c) \<noteq> h"
      using Cons.prems [of c la ra] by simp
  qed
  finally show ?case by simp
qed

text \<open>What the loop body does with a record that has both addresses and whose name
  lookup, if one is made, ends in \<open>NoSuchProcess\<close> or \<open>AccessDenied\<close>.\<close>

lemma collect_connection_sentinel:
  assumes "laddr c = Some la" and "raddr c = Some ra"
    and "\<And>p. pid c = Some p \<Longrightarrow> pid_exists os p \<Longrightarrow>
           process_name os p = NoSuchProcess \<or> process_name os p = AccessDenied"
  shows "collect_connection rt os c (d, v) =
     (dict_set d (KInt (connection_hash rt (pid c) (format_addr la) (format_addr ra) (status c)))
        (connection_details rt c (format_addr la) (format_addr ra)
           (case pid c of None \<Rightarrow> ''System''
            | Some p \<Rightarrow> if pid_exists os p then ''Unknown'' else ''System'')),
      (case pid c of None \<Rightarrow> v
       | Some p \<Rightarrow> if pid_exists os p then log_msg WARNING (Could_not_get_process_name p) v else v))"
proof (cases "pid c")
  case None
  with assms(1,2) show ?thesis
    by (simp add: collect_connection_def resolve_process_name_def Let_def)
next
  case (Some p)
  show ?thesis
  proof (cases "pid_exists os p")
    case True
    with assms(3) [OF Some] Some assms(1,2) show ?thesis
      by (auto simp: collect_connection_def resolve_process_name_def Let_def)
  next
    case False
    with Some assms(1,2) show ?thesis
      by (simp add: collect_connection_def resolve_process_name_def Let_def)
  qed
qed

text \<open>The log of the loop is the log of its records, one after the other.\<close>

lemma collect_connection_log:
  "snd (collect_connection rt os c (d, w)) = w\<lparr>logged := logged w @ record_log rt os c\<rparr>"
  by (simp add: record_log_def collect_connection_def resolve_process_name_def log_msg_def Let_def
      split: option.splits lookup.splits)

lemma fold_collect_log:
  "snd (fold (collect_connection rt os) conns (d, w))
     = w\<lparr>logged := logged w @ concat (map (record_log rt os) conns)\<rparr>"
proof (induction conns arbitrary: d w)
  case Nil
  then show ?case by simp
next
  case (Cons c conns)
  obtain d1 w1 where s: "collect_connection rt os c (d, w) = (d1, w1)"
    by (cases "collect_connection rt os c (d, w)")
  with collect_connection_log [of rt os c d w]
  have w1: "w1 = w\<lparr>logged := logged w @ record_log rt os c\<rparr>" by simp
  show ?case
    using Cons.IH [of d1 w1] by (simp add: s w1)
qed

text \<open>
  Claim C2, as amended. A raw record with both addresses, whose name lookup ends in
  \<open>NoSuchProcess\<close> or \<open>AccessDenied\<close> when one is made, is never dropped: its hash is a
  key of the snapshot. The name stored for it is \<open>"Unknown"\<close> when it has a pid for which
  \<open>pid_exists\<close> holds, and then the record adds one warning to the log; it is \<open>"System"\<close>
  when it has no pid or \<open>pid_exists\<close> fails, and then the record adds nothing to the log:
  the log of the call is the log of the records before it, this entry or none, and the
  log of the records after it. The snapshot holds these details under the record's hash
  unless a later record of the list has the same hash.
\<close>

theorem process_name_sentinels:
  assumes "net_connections os = Some (before @ c # after)"
    and "laddr c = Some la" and "raddr c = Some ra"
    and "\<forall>p. pid c = Some p \<longrightarrow> pid_exists os p \<longrightarrow>
           process_name os p = NoSuchProcess \<or> process_name os p = AccessDenied"
  shows "\<exists>snapshot. get_current_connections rt os w =
           (Inr snapshot,
            w\<lparr>logged := logged w @ concat (map (record_log rt os) before)
                 @ (case pid c of None \<Rightarrow> []
                    | Some p \<Rightarrow> if pid_exists os p
                                then [(WARNING, Could_not_get_process_name p)] else [])
                 @ concat (map (record_log rt os) after)\<rparr>)
     \<and> dict_has snapshot (KInt (connection_hash rt (pid c) (format_addr la) (format_addr ra) (status c)))
     \<and> ((\<forall>c' \<in> set after. \<forall>la' ra'. laddr c' = Some la' \<longrightarrow> raddr c' = Some ra' \<longrightarrow>
             connection_hash rt (pid c') (format_addr la') (format_addr ra') (status c')
               \<noteq> connection_hash rt (pid c) (format_addr la) (format_addr ra) (status c)) \<longrightarrow>
         dict_get snapshot (KInt (connection_hash rt (pid c) (format_addr la) (format_addr ra) (status c)))
           = Some (connection_details rt c (format_addr la) (format_addr ra)
                    (case pid c of None \<Rightarrow> ''System''
                     | Some p \<Rightarrow> if pid_exists os p then ''Unknown'' else ''System'')))"
proof -
  let ?h = "connection_hash rt (pid c) (format_addr la) (format_addr ra) (status c)"
  let ?name = "case pid c of None \<Rightarrow> ''System''
                     | Some p \<Rightarrow> if pid_exists os p then ''Unknown'' else ''System''"
  let ?f = "collect_connection rt os"
  obtain d0 v0 where b: "fold ?f before ([], w) = (d0, v0)"
    by (cases "fold ?f before ([], w)")
  let ?mid = "?f c (d0, v0)"
  obtain snapshot w' where a: "fold ?f after ?mid = (snapshot, w')"
    by (cases "fold ?f after ?mid")
  have sentinel: "collect_connection rt os c (d, v) =
     (dict_set d (KInt ?h) (connection_details rt c (format_addr la) (format_addr ra) ?name),
      (case pid c of None \<Rightarrow> v
       | Some p \<Rightarrow> if pid_exists os p then log_msg WARNING (Could_not_get_process_name p) v else v))"
    for d v
    using assms(4) by (intro collect_connection_sentinel [OF assms(2,3)]) auto
  have mid: "?mid = (dict_set d0 (KInt ?h) (connection_details rt c (format_addr la) (format_addr ra) ?name),
      (case pid c of None \<Rightarrow> v0
       | Some p \<Rightarrow> if pid_exists os p then log_msg WARNING (Could_not_get_process_name p) v0 else v0))"
    by (rule sentinel)
  have rl: "record_log rt os c =
      (case pid c of None \<Rightarrow> []
       | Some p \<Rightarrow> if pid_exists os p then [(WARNING, Could_not_get_process_name p)] else [])"
    by (simp add: record_log_def sentinel log_msg_def split: option.splits)
  have fo: "fold ?f (before @ c # after) ([], w) = (snapshot, w')"
    using a b by simp
  have g: "get_current_connections rt os w = (Inr snapshot, w')"
    using assms(1) a b by (simp add: get_current_connections_def collect_connections_def)
  have log: "w' = w\<lparr>logged := logged w @ concat (map (record_log rt os) before)
                 @ (case pid c of None \<Rightarrow> []
                    | Some p \<Rightarrow> if pid_exists os p
                                then [(WARNING, Could_not_get_process_name p)] else [])
                 @ concat (map (record_log rt os) after)\<rparr>"
    using fold_collect_log [of rt os "before @ c # after" "[]" w] unfolding fo
    by (simp add: rl)
  have has_mid: "dict_has (fst ?mid) (KInt ?h)"
    by (simp add: mid dict_has_def keys_dict_set)
  have has: "dict_has snapshot (KInt ?h)"
    using fold_collect_keeps_keys [OF has_mid, of rt os after] a by simp
  have get: "dict_get snapshot (KInt ?h)
      = Some (connection_details rt c (format_addr la) (format_addr ra) ?name)"
    if "\<forall>c' \<in> set after. \<forall>la' ra'. laddr c' = Some la' \<longrightarrow> raddr c' = Some ra' \<longrightarrow>
             connection_hash rt (pid c') (format_addr la') (format_addr ra') (status c') \<noteq> ?h"
  proof -
    have "dict_get (fst (fold ?f after ?mid)) (KInt ?h) = dict_get (fst ?mid) (KInt ?h)"
      using that by (intro fold_collect_other_key) auto
    then show ?thesis
      using a by (simp add: mid dict_get_def map_of_dict_set)
  qed
  from g log has get show ?thesis by blast
qed

text \<open>
  Claim C2 as stated fails in two ways. A record whose pid is present but no longer
  exists is sent to the \<open>else\<close> branch by the guard \<open>psutil.pid_exists(conn.pid)\<close>: the name
  is \<open>"System"\<close> and nothing is logged. And a record whose lookup is denied, followed in the
  list by a record of another process with the same hash, leaves its warning in the log
  but no entry named \<open>"Unknown"\<close>: the later record has taken the key.
\<close>

theorem process_name_sentinels_counterexample:
  "pid (demo_connection\<lparr>pid := Some 4242\<rparr>) = Some 4242
   \<and> process_name (demo_os [demo_connection\<lparr>pid := Some 4242\<rparr>]) 4242 = NoSuchProcess
   \<and> get_current_connections demo_runtime (demo_os [demo_connection\<lparr>pid := Some 4242\<rparr>]) demo_world
     = (Inr [(KInt 48,
          PDict [(KStr ''pid'', PInt 4242),
                 (KStr ''local_address'', PStr ''10.0.0.1:5000''),
                 (KStr ''remote_address'', PStr ''93.184.216.34:443''),
                 (KStr ''status'', PStr ''ESTABLISHED''),
                 (KStr ''process_name'', PStr ''System''),
                 (KStr ''family'', PStr ''AddressFamily.AF_INET''),
                 (KStr ''type'', PStr ''SocketKind.SOCK_STREAM'')])],
        demo_world)
   \<and> get_current_connections demo_runtime
        \<lparr>net_connections = Some [demo_connection, demo_connection\<lparr>pid := Some 200\<rparr>],
         pid_exists = (\<lambda>p. True),
         process_name = (\<lambda>p. if p = 100 then AccessDenied else Name ''sshd'')\<rparr> demo_world
     = (Inr [(KInt 47,
          PDict [(KStr ''pid'', PInt 200),
                 (KStr ''local_address'', PStr ''10.0.0.1:5000''),
                 (KStr ''remote_address'', PStr ''93.184.216.34:443''),
                 (KStr ''status'', PStr ''ESTABLISHED''),
                 (KStr ''process_name'', PStr ''sshd''),
                 (KStr ''family'', PStr ''AddressFamily.AF_INET''),
                 (KStr ''type'', PStr ''SocketKind.SOCK_STREAM'')])],
        demo_world\<lparr>logged := [(WARNING, Could_not_get_process_name 100)]\<rparr>)"
  by (simp add: demo_defs eval_defs)

theorem process_name_sentinels_witness:
  "net_connections \<lparr>net_connections = Some [demo_listener, demo_connection],
         pid_exists = (\<lambda>p. True), process_name = (\<lambda>p. AccessDenied)\<rparr>
     = Some ([demo_listener] @ demo_connection # [])
   \<and> laddr demo_connection = Some \<lparr>ip = ''10.0.0.1'', port = 5000\<rparr>
   \<and> raddr demo_connection = Some \<lparr>ip = ''93.184.216.34'', port = 443\<rparr>
   \<and> pid demo_connection = Some 100
   \<and> get_current_connections demo_runtime
        \<lparr>net_connections = Some [demo_listener, demo_connection],
         pid_exists = (\<lambda>p. True), process_name = (\<lambda>p. AccessDenied)\<rparr> demo_world
     = (Inr [(KInt 47, demo_details ''Unknown'')],
        demo_world\<lparr>logged := [(WARNING, Could_not_get_process_name 100)]\<rparr>)
   \<and> net_connections \<lparr>net_connections = Some [demo_connection],
         pid_exists = (\<lambda>p. False), process_name = (\<lambda>p. NoSuchProcess)\<rparr>
     = Some ([] @ demo_connection # [])
   \<and> get_current_connections demo_runtime
        \<lparr>net_connections = Some [demo_connection],
         pid_exists = (\<lambda>p. False), process_name = (\<lambda>p. NoSuchProcess)\<rparr> demo_world
     = (Inr [(KInt 47, demo_details ''System'')], demo_world)"
proof -
  let ?os = "\<lparr>net_connections = Some [demo_listener, demo_connection],
         pid_exists = (\<lambda>p. True), process_name = (\<lambda>p. AccessDenied)\<rparr>"
  let ?os' = "\<lparr>net_connections = Some [demo_connection],
         pid_exists = (\<lambda>p. False), process_name = (\<lambda>p. NoSuchProcess)\<rparr>"
  have n: "net_connections ?os = Some ([demo_listener] @ demo_connection # [])"
    and n': "net_connections ?os' = Some ([] @ demo_connection # [])"
    by simp_all
  have l: "laddr demo_connection = Some \<lparr>ip = ''10.0.0.1'', port = 5000\<rparr>"
    and r: "raddr demo_connection = Some \<lparr>ip = ''93.184.216.34'', port = 443\<rparr>"
    and p: "pid demo_connection = Some 100"
    by (simp_all add: demo_connection_def)
  have f: "\<forall>p. pid demo_connection = Some p \<longrightarrow> pid_exists ?os p \<longrightarrow>
           process_name ?os p = NoSuchProcess \<or> process_name ?os p = AccessDenied"
    and f': "\<forall>p. pid demo_connection = Some p \<longrightarrow> pid_exists ?os' p \<longrightarrow>
           process_name ?os' p = NoSuchProcess \<or> process_name ?os' p = AccessDenied"
    by simp_all
  show ?thesis
    using n n' l r p process_name_sentinels [OF n l r f, of demo_runtime demo_world]
      process_name_sentinels [OF n' l r f', of demo_runtime demo_world]
    by (simp add: demo_defs eval_defs record_log_def)
qed

section \<open>The run\<close>

lemma tick_not_dict_raises:
  assumes "raised (tick rt a os known w) = None"
  shows "\<exists>d. known = PDict d"
  using assms
  by (cases known) (auto simp: tick_def split: prod.splits sum.splits)

lemma tick_failed_enumeration:
  assumes "get_current_connections rt os w = (Inl e, w1)"
  shows "tick rt a os known w =
     \<lparr>raised = Some e, collected = None, reported = None, known_after = known, world_after = w1\<rparr>"
  using assms by (simp add: tick_def)

lemma keys_filter_subset: "set (dict_keys (filter P d)) \<subseteq> set (dict_keys d)"
  by (auto simp: dict_keys_def)

lemma keys_filter_unknown:
  "set (dict_keys (filter (\<lambda>(k, v). \<not> dict_has known k) current)) \<inter> set (dict_keys known) = {}"
  by (auto simp: dict_keys_def dict_has_def image_iff)

text \<open>From a dictionary on, the known connections stay a dictionary whose keys only grow,
  and no tick reports a key that was known when the loop started.\<close>

lemma polling_loop_grows:
  assumes "r \<in> set (polling_loop rt a oss (PDict d) w)"
  shows "(\<exists>d'. known_after r = PDict d' \<and> set (dict_keys d) \<subseteq> set (dict_keys d'))
       \<and> (\<forall>n. reported r = Some n \<longrightarrow> set (dict_keys n) \<inter> set (dict_keys d) = {})"
  using assms
proof (induction oss arbitrary: d w)
  case Nil
  then show ?case by simp
next
  case (Cons os later)
  obtain r1 w1 where g: "get_current_connections rt os w = (r1, w1)"
    by (cases "get_current_connections rt os w")
  show ?case
  proof (cases r1)
    case (Inl e)
    with g Cons.prems show ?thesis
      by (simp add: tick_failed_enumeration)
  next
    case (Inr current)
    let ?t = "tick rt a os (PDict d) w"
    have t: "known_after ?t = PDict (dict_update d current)"
      "reported ?t = Some (filter (\<lambda>(k, v). \<not> dict_has d k) current)"
      using g Inr by (simp_all add: tick_dict)
    from Cons.prems consider "r = ?t"
      | "raised ?t = None" "r \<in> set (polling_loop rt a later (known_after ?t) (world_after ?t))"
      by (auto simp: Let_def split: option.splits)
    then show ?thesis
    proof cases
      case 1
      with t keys_filter_unknown [of d current] show ?thesis
        by (simp add: keys_dict_update)
    next
      case 2
      from Cons.IH [of "dict_update d current" "world_after ?t"] 2(2) t(1)
      show ?thesis
        by (auto simp: keys_dict_update)
    qed
  qed
qed

lemma polling_loop_step:
  assumes "0 < j" and "j < length (polling_loop rt a (os # later) known w)"
  shows "raised (tick rt a os known w) = None
       \<and> polling_loop rt a (os # later) known w ! j
           = polling_loop rt a later (known_after (tick rt a os known w))
               (world_after (tick rt a os known w)) ! (j - 1)
       \<and> j - 1 < length (polling_loop rt a later (known_after (tick rt a os known w))
               (world_after (tick rt a os known w)))"
  using assms by (cases j) (auto simp: Let_def split: option.splits)

lemma polling_loop_length: "length (polling_loop rt a oss known w) \<le> length oss"
  by (induction oss arbitrary: known w) (auto simp: Let_def split: option.splits)

lemma polling_loop_nth:
  assumes "0 < j" and "j < length (polling_loop rt a oss known w)"
  shows "polling_loop rt a oss known w ! j
           = tick rt a (oss ! j) (known_after (polling_loop rt a oss known w ! (j - 1)))
               (world_after (polling_loop rt a oss known w ! (j - 1)))"
  using assms
proof (induction oss arbitrary: known w j)
  case Nil
  then show ?case by simp
next
  case (Cons os later)
  let ?t = "tick rt a os known w"
  let ?rest = "polling_loop rt a later (known_after ?t) (world_after ?t)"
  from polling_loop_step [OF Cons.prems]
  have s: "raised ?t = None" "polling_loop rt a (os # later) known w ! j = ?rest ! (j - 1)"
    "j - 1 < length ?rest"
    by auto
  have all: "polling_loop rt a (os # later) known w = ?t # ?rest"
    using s(1) by (simp add: Let_def)
  show ?case
  proof (cases "j = 1")
    case True
    from s(3) True obtain os' later' where l: "later = os' # later'"
      by (cases later) auto
    with True all show ?thesis
      by (simp add: Let_def)
  next
    case False
    with Cons.prems(1) have j: "0 < j - 1" by simp
    from Cons.IH [OF j s(3)] all j Cons.prems(1) show ?thesis
      by (simp add: nth_Cons')
  qed
qed

text \<open>
  Claim C10. In a run of the loop, for ticks \<open>i < j\<close> that both ran: tick \<open>j\<close> starts from
  the known connections that tick \<open>j - 1\<close> left; these are a dictionary that has every
  key of the snapshot collected in tick \<open>i\<close>; and no key reported as new in tick \<open>i\<close> is
  reported as new in tick \<open>j\<close>.
\<close>

theorem no_repeated_alerts:
  assumes "i < j" and "j < length (polling_loop rt a oss known w)"
  shows "polling_loop rt a oss known w ! j
           = tick rt a (oss ! j) (known_after (polling_loop rt a oss known w ! (j - 1)))
               (world_after (polling_loop rt a oss known w ! (j - 1)))
       \<and> (\<forall>current. collected (polling_loop rt a oss known w ! i) = Some current \<longrightarrow>
            (\<exists>d. known_after (polling_loop rt a oss known w ! (j - 1)) = PDict d
                \<and> set (dict_keys current) \<subseteq> set (dict_keys d)))
       \<and> (\<forall>new new'. reported (polling_loop rt a oss known w ! i) = Some new \<longrightarrow>
            reported (polling_loop rt a oss known w ! j) = Some new' \<longrightarrow>
            set (dict_keys new) \<inter> set (dict_keys new') = {})"
proof -
  have step: "polling_loop rt a oss known w ! j
           = tick rt a (oss ! j) (known_after (polling_loop rt a oss known w ! (j - 1)))
               (world_after (polling_loop rt a oss known w ! (j - 1)))"
    using assms by (intro polling_loop_nth) auto
  have rest: "(\<forall>current. collected (polling_loop rt a oss known w ! i) = Some current \<longrightarrow>
            (\<exists>d. known_after (polling_loop rt a oss known w ! (j - 1)) = PDict d
                \<and> set (dict_keys current) \<subseteq> set (dict_keys d)))
       \<and> (\<forall>new new'. reported (polling_loop rt a oss known w ! i) = Some new \<longrightarrow>
            reported (polling_loop rt a oss known w ! j) = Some new' \<longrightarrow>
            set (dict_keys new) \<inter> set (dict_keys new') = {})"
    using assms
  proof (induction oss arbitrary: known w i j)
    case Nil
    then show ?case by simp
  next
    case (Cons os later)
    let ?t = "tick rt a os known w"
    let ?rest = "polling_loop rt a later (known_after ?t) (world_after ?t)"
    from Cons.prems have j0: "0 < j" by simp
    from polling_loop_step [OF j0 Cons.prems(2)]
    have s: "raised ?t = None" "polling_loop rt a (os # later) known w ! j = ?rest ! (j - 1)"
      "j - 1 < length ?rest"
      by auto
    have all: "polling_loop rt a (os # later) known w = ?t # ?rest"
      using s(1) by (simp add: Let_def)
    from tick_not_dict_raises [OF s(1)] obtain d where d: "known = PDict d"
      by auto
    obtain r1 w1 where g: "get_current_connections rt os w = (r1, w1)"
      by (cases "get_current_connections rt os w")
    with s(1) d obtain cur where cur: "r1 = Inr cur"
      by (cases r1) (auto simp: tick_failed_enumeration)
    have t: "known_after ?t = PDict (dict_update d cur)"
      "reported ?t = Some (filter (\<lambda>(k, v). \<not> dict_has d k) cur)"
      "collected ?t = Some cur"
      using g cur d by (simp_all add: tick_dict)
    show ?case
    proof (cases i)
      case 0
      have later_known: "\<exists>d'. known_after (polling_loop rt a (os # later) known w ! (j - 1)) = PDict d'
          \<and> set (dict_keys cur) \<subseteq> set (dict_keys d')"
      proof (cases "j = 1")
        case True
        with all t(1) show ?thesis by (simp add: keys_dict_update)
      next
        case False
        with j0 s(3) have "?rest ! (j - 1 - 1) \<in> set ?rest" by simp
        from polling_loop_grows [of "?rest ! (j - 1 - 1)" rt a later "dict_update d cur" "world_after ?t"]
          this t(1)
        have "\<exists>d'. known_after (?rest ! (j - 1 - 1)) = PDict d'
            \<and> set (dict_keys (dict_update d cur)) \<subseteq> set (dict_keys d')"
          by simp
        with False j0 all show ?thesis
          by (auto simp: nth_Cons' keys_dict_update)
      qed
      have "?rest ! (j - 1) \<in> set ?rest" using s(3) by simp
      from polling_loop_grows [of "?rest ! (j - 1)" rt a later "dict_update d cur" "world_after ?t"]
        this t(1)
      have "\<forall>n. reported (?rest ! (j - 1)) = Some n \<longrightarrow>
              set (dict_keys n) \<inter> set (dict_keys (dict_update d cur)) = {}"
        by simp
      moreover have "set (dict_keys (filter (\<lambda>(k, v). \<not> dict_has d k) cur))
          \<subseteq> set (dict_keys (dict_update d cur))"
        using keys_filter_subset [of "\<lambda>(k, v). \<not> dict_has d k" cur]
        by (auto simp: keys_dict_update)
      ultimately have "\<forall>new new'. reported ?t = Some new \<longrightarrow>
            reported (?rest ! (j - 1)) = Some new' \<longrightarrow>
            set (dict_keys new) \<inter> set (dict_keys new') = {}"
        using t(2) by auto
      with later_known 0 all s(2) t(3) show ?thesis
        by simp
    next
      case (Suc i')
      with Cons.prems(1) have ij: "i' < j - 1" by simp
      have n1: "(?t # ?rest) ! i = ?rest ! i'"
        using Suc by simp
      have n2: "(?t # ?rest) ! j = ?rest ! (j - 1)"
        using j0 by (simp add: nth_Cons')
      have n3: "(?t # ?rest) ! (j - 1) = ?rest ! (j - 1 - 1)"
        using ij by (simp add: nth_Cons')
      from Cons.IH [OF ij s(3)] show ?thesis
        by (simp only: all n1 n2 n3)
    qed
  qed
  from step rest show ?thesis by blast
qed

theorem no_repeated_alerts_witness:
  "(0::nat) < 1
   \<and> length (polling_loop demo_runtime demo_args
        [demo_os [demo_connection], demo_os [demo_listener, demo_connection]] (PDict []) demo_world) = 2
   \<and> reported (polling_loop demo_runtime demo_args
        [demo_os [demo_connection], demo_os [demo_listener, demo_connection]] (PDict []) demo_world ! 0)
       = Some [(KInt 47, demo_details ''curl'')]
   \<and> known_after (polling_loop demo_runtime demo_args
        [demo_os [demo_connection], demo_os [demo_listener, demo_connection]] (PDict []) demo_world ! 0)
       = PDict [(KInt 47, demo_details ''curl'')]
   \<and> collected (polling_loop demo_runtime demo_args
        [demo_os [demo_connection], demo_os [demo_listener, demo_connection]] (PDict []) demo_world ! 1)
       = Some [(KInt 47, demo_details ''curl'')]
   \<and> reported (polling_loop demo_runtime demo_args
        [demo_os [demo_connection], demo_os [demo_listener, demo_connection]] (PDict []) demo_world ! 1)
       = Some []"
proof -
  let ?ticks = "polling_loop demo_runtime demo_args
        [demo_os [demo_connection], demo_os [demo_listener, demo_connection]] (PDict []) demo_world"
  have len: "length ?ticks = 2"
    by (simp add: demo_defs eval_defs tick_eval_defs Let_def)
  have i: "(0::nat) < 1" by simp
  have j: "1 < length ?ticks" using len by simp
  show ?thesis
    using i len no_repeated_alerts [OF i j]
    by (simp add: demo_defs eval_defs tick_eval_defs Let_def)
qed

section \<open>Saving and loading again\<close>

lemma jsonify_json_value:
  "json_value v \<Longrightarrow> jsonify v = v"
  "json_list vs \<Longrightarrow> jsonify_list vs = vs"
  "json_items d \<Longrightarrow> set (dict_keys d) \<inter> set (dict_keys acc) = {} \<Longrightarrow> jsonify_items d acc = acc @ d"
proof (induction v and vs and d acc rule: jsonify_jsonify_list_jsonify_items.induct)
  case (10 k v d acc)
  then obtain s where k: "k = KStr s" by (cases k) auto
  from 10(3,4) k have fresh: "dict_set acc (KStr (key_str k)) v = acc @ [(k, v)]"
    by (intro dict_set_fresh [THEN trans]) (auto simp: key_str_def)
  from 10(3) have jv: "jsonify v = v" by (intro 10(1)) simp
  have "jsonify_items d (acc @ [(k, v)]) = (acc @ [(k, v)]) @ d"
    using 10(3,4) k by (intro 10(2) [unfolded jv fresh]) auto
  then show ?case by (simp add: jv fresh)
qed simp_all

lemma save_then_load:
  assumes "\<not> unwritable w p" and "\<not> unreadable w p"
  shows "fst (load_known_connections p (save_known_connections m p w)) = jsonify m"
  using assms by (simp add: load_known_connections_def save_known_connections_def write_json_def)

lemma save_then_load_json_value:
  assumes "\<not> unwritable w p" and "\<not> unreadable w p" and "json_value m"
  shows "fst (load_known_connections p (save_known_connections m p w)) = m"
  using assms by (simp add: save_then_load jsonify_json_value)

text \<open>
  Claim C1 at the dictionary that \<open>main\<close> saves after its first tick, whose key is the
  integer hash: what \<open>load_known_connections\<close> returns has the key as a string, the
  integer key is not in it, and against the loaded dictionary the same connection is new
  again.
\<close>

theorem round_trip_int_keys:
  "fst (load_known_connections ''known_connections.json''
         (save_known_connections (PDict [(KInt 47, demo_details ''curl'')])
            ''known_connections.json'' demo_world))
     = PDict [(KStr ''47'', demo_details ''curl'')]
   \<and> dict_get [(KStr ''47'', demo_details ''curl'')] (KInt 47) = None
   \<and> fst (check_for_new_connections (PDict [(KStr ''47'', demo_details ''curl'')])
            [(KInt 47, demo_details ''curl'')] None demo_world)
     = Inr [(KInt 47, demo_details ''curl'')]"
  by (simp add: demo_defs eval_defs load_known_connections_def save_known_connections_def
      write_json_def check_for_new_connections_def)

end
